theory Spec2Isabelle
  imports Complex_Main
begin

section \<open>Data model\<close>

text \<open>
  The module \<^verbatim>\<open>vsketch/display.py\<close> previews a \<^verbatim>\<open>vpype\<close> document. A line is an
  array of complex numbers (one per point), a layer is a sequence of lines, and a document
  maps layer identifiers to layers, iterated in insertion order. Python floats are
  idealised as reals throughout.
\<close>

type_synonym line = "complex list"
type_synonym layer = "line list"
type_synonym vec = "real \<times> real"
type_synonym rgb = "real \<times> real \<times> real"

record document =
  layers :: "(int \<times> layer) list"

datatype error = ValueError | RuntimeError | IndexError | ZeroDivisionError

text \<open>
  The \<^verbatim>\<open>color\<close> argument of a line collection is one colour or a list of colours.
  The label of a layer's collection is \<^verbatim>\<open>str(layer_id)\<close>, kept here as the
  identifier itself; the pen-up collection has none.
\<close>

datatype color_arg = OneColor rgb | ColorList "rgb list"

record line_collection =
  segments :: "vec list list"
  color :: color_arg
  lw :: real
  alpha :: real
  label :: "int option"

text \<open>
  What \<^verbatim>\<open>display_ipython\<close> interpolates into the HTML it hands to IPython: the
  numbers and strings of the f-string, not their decimal rendering.
\<close>

record markup =
  container_height :: real
  svg_id :: int
  svg_width_attr :: real
  svg_height_attr :: real
  view_box :: "real \<times> real \<times> real \<times> real"
  page_boundaries :: "(vec list \<times> vec) option"
  svg_body :: string
  script_src :: string

text \<open>The calls made on the outside world, in the order they happen.\<close>

datatype event =
    Warning string
  | Figure vec
  | Cla
  | Fill "real list" "real list" string real
  | Plot "real list" "real list" string real
  | AddCollection line_collection
  | InvertYAxis
  | Axis string
  | Margins real real
  | XLabel string
  | YLabel string
  | Grid string
  | Show
  | DisplayHtml markup

text \<open>
  What the module reads from outside itself: the two flags and the URL of
  \<^verbatim>\<open>vsketch.environment\<close>, whether \<^verbatim>\<open>IPython\<close> is in \<^verbatim>\<open>sys.modules\<close>, the
  functions \<^verbatim>\<open>vp.convert_length\<close> and \<^verbatim>\<open>vp.write_svg\<close> (the text the latter writes
  to the buffer), and the number \<^verbatim>\<open>random.randint(0, 10000)\<close> draws.
\<close>

record host =
  COLAB :: bool
  JUPYTERLAB :: bool
  ipython_loaded :: bool
  svg_pan_zoom_url :: string
  convert_length :: "string \<Rightarrow> error + real"
  write_svg :: "document \<Rightarrow> vec \<Rightarrow> bool \<Rightarrow> bool \<Rightarrow> string \<Rightarrow> error + string"
  randint :: int

definition COLORS :: "rgb list" where
  "COLORS =
    [(0, 0, 1),
     (0, 0.5, 0),
     (1, 0, 0),
     (0, 0.75, 0.75),
     (0, 1, 0),
     (0.75, 0, 0.75),
     (0.75, 0.75, 0),
     (0, 0, 0)]"

section \<open>Collaborators from vpype\<close>

text \<open>\<^verbatim>\<open>vp.as_vector\<close>: an array of complex numbers as an array of (x, y) rows.\<close>

definition as_vector :: "line \<Rightarrow> vec list" where
  "as_vector line = map (\<lambda>z. (Re z, Im z)) line"

definition all_points :: "document \<Rightarrow> complex list" where
  "all_points d = concat (concat (map snd (layers d)))"

text \<open>
  Modelled from the spec: \<^verbatim>\<open>Document.bounds()\<close> of the vpype library, which is not
  among the sources. The bounds are the axis-aligned rectangle (min-x, min-y, max-x,
  max-y) of all points of all layers, and are absent when the document has no point.
\<close>

definition bounds :: "document \<Rightarrow> (real \<times> real \<times> real \<times> real) option" where
  "bounds d =
    (case all_points d of
       [] \<Rightarrow> None
     | p # ps \<Rightarrow>
         Some (fold min (map Re ps) (Re p), fold min (map Im ps) (Im p),
               fold max (map Re ps) (Re p), fold max (map Im ps) (Im p)))"

section \<open>The matplotlib renderer\<close>

text \<open>\<^verbatim>\<open>scale = 1 / vp.convert_length(unit)\<close>; a zero factor raises.\<close>

definition compute_scale :: "host \<Rightarrow> string \<Rightarrow> error + real" where
  "compute_scale h unit =
    (case convert_length h unit of
       Inl e \<Rightarrow> Inl e
     | Inr f \<Rightarrow> if f = 0 then Inl ZeroDivisionError else Inr (1 / f))"

text \<open>The page: a shadow polygon and an outline, both in scaled units.\<close>

definition draw_page :: "vec option \<Rightarrow> real \<Rightarrow> event list" where
  "draw_page page_size scale =
    (case page_size of
       None \<Rightarrow> []
     | Some (pw, ph) \<Rightarrow>
         (let w = pw * scale; h = ph * scale; dw = 10 * scale
          in [Fill [w, w + dw, w + dw, dw, dw, w] [dw, dw, h + dw, h + dw, h, h] ''k'' 0.3,
              Plot (map (\<lambda>c. c * w) [0, 1, 1, 0, 0]) (map (\<lambda>c. c * h) [0, 0, 1, 1, 0])
                ''-k'' 0.25]))"

text \<open>
  The offset: zero unless \<^verbatim>\<open>center\<close> holds, a page size is given (a pair is truthy)
  and the document has bounds.
\<close>

definition compute_offset ::
  "vec option \<Rightarrow> bool \<Rightarrow> (real \<times> real \<times> real \<times> real) option \<Rightarrow> complex" where
  "compute_offset page_size center bnds =
    (case page_size of
       None \<Rightarrow> Complex 0 0
     | Some (pw, ph) \<Rightarrow>
         if center then
           (case bnds of
              None \<Rightarrow> Complex 0 0
            | Some (b0, b1, b2, b3) \<Rightarrow>
                Complex ((pw - (b2 - b0)) / 2 - b0) ((ph - (b3 - b1)) / 2 - b1))
         else Complex 0 0)"

text \<open>\<^verbatim>\<open>vp.as_vector(line + offset) * scale\<close>, the points of a drawn stroke.\<close>

definition stroke :: "complex \<Rightarrow> real \<Rightarrow> line \<Rightarrow> vec list" where
  "stroke offset scale line =
     map (\<lambda>(x, y). (x * scale, y * scale)) (as_vector (map (\<lambda>z. z + offset) line))"

text \<open>Python's \<^verbatim>\<open>a[-1]\<close> and \<^verbatim>\<open>a[0]\<close>, which raise on an empty array.\<close>

definition last_row :: "'a list \<Rightarrow> error + 'a" where
  "last_row xs = (if xs = [] then Inl IndexError else Inr (last xs))"

definition first_row :: "'a list \<Rightarrow> error + 'a" where
  "first_row xs = (case xs of [] \<Rightarrow> Inl IndexError | x # _ \<Rightarrow> Inr x)"

text \<open>
  One pen-up segment, for index \<^verbatim>\<open>i\<close> of the generator: the last row of line
  \<^verbatim>\<open>i\<close> and the first row of line \<^verbatim>\<open>i + 1\<close>, each plus
  \<^verbatim>\<open>offset_ndarr\<close> and times \<^verbatim>\<open>scale\<close>.
\<close>

definition pen_up_segment :: "complex \<Rightarrow> real \<Rightarrow> layer \<Rightarrow> nat \<Rightarrow> error + (vec \<times> vec)" where
  "pen_up_segment offset scale lc i =
    (let offset_ndarr = (Re offset, Im offset)
     in case last_row (as_vector (lc ! i)) of
          Inl e \<Rightarrow> Inl e
        | Inr (x, y) \<Rightarrow>
            (case first_row (as_vector (lc ! (i + 1))) of
               Inl e \<Rightarrow> Inl e
             | Inr (x', y') \<Rightarrow>
                 Inr (((x + fst offset_ndarr) * scale, (y + snd offset_ndarr) * scale),
                      ((x' + fst offset_ndarr) * scale, (y' + snd offset_ndarr) * scale))))"

text \<open>Running a generator to its end: the first element that raises ends it.\<close>

fun collect :: "(error + 'a) list \<Rightarrow> error + 'a list" where
  "collect [] = Inr []"
| "collect (r # rs) =
    (case r of
       Inl e \<Rightarrow> Inl e
     | Inr x \<Rightarrow> (case collect rs of Inl e \<Rightarrow> Inl e | Inr xs \<Rightarrow> Inr (x # xs)))"

text \<open>
  The generator over \<^verbatim>\<open>range(len(lc) - 1)\<close>; the range is empty when the layer has
  no line, as the truncated difference gives.
\<close>

definition pen_up_segments :: "complex \<Rightarrow> real \<Rightarrow> layer \<Rightarrow> error + (vec \<times> vec) list" where
  "pen_up_segments offset scale lc =
     collect (map (pen_up_segment offset scale lc) [0..<length lc - 1])"

text \<open>
  The colour of one layer and the cursor after it. \<^verbatim>\<open>COLORS[color_idx]\<close> raises
  when the cursor is out of range; the slices never do.
\<close>

definition layer_color :: "bool \<Rightarrow> nat \<Rightarrow> layer \<Rightarrow> error + (color_arg \<times> nat)" where
  "layer_color colorful color_idx lc =
    (if colorful then
       Inr (ColorList (drop color_idx COLORS @ take color_idx COLORS), color_idx + length lc)
     else if color_idx < length COLORS then
       Inr (OneColor (COLORS ! color_idx), color_idx + 1)
     else Inl IndexError)"

definition wrap_idx :: "nat \<Rightarrow> nat" where
  "wrap_idx color_idx =
    (if color_idx \<ge> length COLORS then color_idx mod length COLORS else color_idx)"

text \<open>
  The loop over \<^verbatim>\<open>document.layers.items()\<close>. It returns the calls made, and the
  cursor after the last layer or the error that stopped it. The dictionary
  \<^verbatim>\<open>collections\<close> is written and never read, and is left out.
\<close>

fun plot_layers ::
  "bool \<Rightarrow> bool \<Rightarrow> complex \<Rightarrow> real \<Rightarrow> nat \<Rightarrow> (int \<times> layer) list \<Rightarrow> event list \<times> (error + nat)"
where
  "plot_layers colorful show_pen_up offset scale color_idx [] = ([], Inr color_idx)"
| "plot_layers colorful show_pen_up offset scale color_idx ((layer_id, lc) # rest) =
    (case layer_color colorful color_idx lc of
       Inl e \<Rightarrow> ([], Inl e)
     | Inr (col, idx) \<Rightarrow>
        (let color_idx' = wrap_idx idx;
             layer_lines = \<lparr>segments = map (stroke offset scale) lc, color = col, lw = 1,
                             alpha = 0.5, label = Some layer_id\<rparr>
         in if show_pen_up then
              (case pen_up_segments offset scale lc of
                 Inl e \<Rightarrow> ([AddCollection layer_lines], Inl e)
               | Inr segs \<Rightarrow>
                  (let pen_up_lines = \<lparr>segments = map (\<lambda>(p, q). [p, q]) segs,
                                         color = OneColor (0, 0, 0), lw = 0.5, alpha = 0.5,
                                         label = None\<rparr>;
                       (evs, r) = plot_layers colorful show_pen_up offset scale color_idx' rest
                   in (AddCollection layer_lines # AddCollection pen_up_lines # evs, r)))
            else
              (let (evs, r) = plot_layers colorful show_pen_up offset scale color_idx' rest
               in (AddCollection layer_lines # evs, r))))"

text \<open>Axes, labels and grid, the last block before \<^verbatim>\<open>plt.show()\<close>.\<close>

definition configure_axes :: "bool \<Rightarrow> bool \<Rightarrow> string \<Rightarrow> event list" where
  "configure_axes show_axes show_grid unit =
    (if show_axes \<or> show_grid then
       [Axis ''on'', XLabel (''['' @ unit @ '']''), YLabel (''['' @ unit @ '']'')]
     else [Axis ''off''])
    @ (if show_grid then [Grid ''on''] else [])"

definition display_matplotlib ::
  "host \<Rightarrow> document \<Rightarrow> vec option \<Rightarrow> bool \<Rightarrow> bool \<Rightarrow> bool \<Rightarrow> bool \<Rightarrow> bool \<Rightarrow> string \<Rightarrow> vec option
    \<Rightarrow> event list \<times> (error + unit)"
where
  "display_matplotlib h document page_size center show_axes show_grid show_pen_up colorful
      unit fig_size =
    (case compute_scale h unit of
       Inl e \<Rightarrow> ([], Inl e)
     | Inr scale \<Rightarrow>
        (let prepare = (case fig_size of None \<Rightarrow> [] | Some fs \<Rightarrow> [Figure fs]) @ [Cla]
                         @ draw_page page_size scale;
             offset = compute_offset page_size center (bounds document);
             (evs, r) = plot_layers colorful show_pen_up offset scale 0 (layers document)
         in case r of
              Inl e \<Rightarrow> (prepare @ evs, Inl e)
            | Inr _ \<Rightarrow>
                (prepare @ evs @ [InvertYAxis, Axis ''equal'', Margins 0 0]
                   @ configure_axes show_axes show_grid unit @ [Show], Inr ())))"

section \<open>The IPython renderer\<close>

definition MARGIN :: real where
  "MARGIN = 10"

text \<open>
  Nothing is built or sent when \<^verbatim>\<open>IPython\<close> is not loaded. Otherwise the SVG body
  is written, the size is taken from the page or from the bounds, and one HTML fragment is
  handed to \<^verbatim>\<open>IPython.display.display_html\<close>.
\<close>

definition display_ipython ::
  "host \<Rightarrow> document \<Rightarrow> vec option \<Rightarrow> bool \<Rightarrow> bool \<Rightarrow> string \<Rightarrow> event list \<times> (error + unit)"
where
  "display_ipython h document page_size center show_pen_up color_mode =
    (if \<not> ipython_loaded h then ([], Inl RuntimeError)
     else
       (case write_svg h document (case page_size of None \<Rightarrow> (0, 0) | Some p \<Rightarrow> p)
               center show_pen_up color_mode of
          Inl e \<Rightarrow> ([], Inl e)
        | Inr body \<Rightarrow>
           (let (svg_width, svg_height) =
                  (case page_size of
                     None \<Rightarrow>
                       (case bounds document of
                          Some (b0, b1, b2, b3) \<Rightarrow> (b2 - b0, b3 - b1)
                        | None \<Rightarrow> (0, 0))
                   | Some (pw, ph) \<Rightarrow> (pw, ph));
                frame =
                  ([(svg_width, MARGIN), (svg_width + MARGIN, MARGIN),
                    (svg_width + MARGIN, svg_height + MARGIN), (MARGIN, svg_height + MARGIN),
                    (MARGIN, svg_height), (svg_width, svg_height)],
                   (svg_width, svg_height));
                svg_margin = (if page_size \<noteq> None then MARGIN else 0)
            in ([DisplayHtml
                   \<lparr>container_height = svg_height + svg_margin,
                    svg_id = randint h,
                    svg_width_attr = svg_width + svg_margin,
                    svg_height_attr = svg_height + svg_margin,
                    view_box = (0, 0, svg_width + svg_margin, svg_height + svg_margin),
                    page_boundaries = (if page_size \<noteq> None then Some frame else None),
                    svg_body = body,
                    script_src = svg_pan_zoom_url h\<rparr>],
                Inr ()))))"

section \<open>The dispatcher\<close>

text \<open>The mode in force: the one given, or the one the environment suggests.\<close>

definition infer_mode :: "host \<Rightarrow> string option \<Rightarrow> string" where
  "infer_mode h mode =
    (case mode of
       None \<Rightarrow> if COLAB h \<or> JUPYTERLAB h then ''ipython'' else ''matplotlib''
     | Some m \<Rightarrow> m)"

text \<open>The four warnings of the IPython branch, in the order they are logged.\<close>

definition ipython_warnings :: "bool \<Rightarrow> bool \<Rightarrow> string \<Rightarrow> vec option \<Rightarrow> event list" where
  "ipython_warnings show_axes show_grid unit fig_size =
    (if show_axes then [Warning ''show_axis is not supported by the IPython display mode'']
     else [])
    @ (if show_grid then [Warning ''show_grid is not supported by the IPython display mode'']
       else [])
    @ (if unit \<noteq> ''px''
       then [Warning ''custom units are not supported by the IPython display mode'']
       else [])
    @ (if fig_size \<noteq> None
       then [Warning ''setting fig_size is not supported by the IPython display mode'']
       else [])"

definition display ::
  "host \<Rightarrow> document \<Rightarrow> vec option \<Rightarrow> bool \<Rightarrow> bool \<Rightarrow> bool \<Rightarrow> bool \<Rightarrow> string \<Rightarrow> string
    \<Rightarrow> string option \<Rightarrow> vec option \<Rightarrow> event list \<times> (error + unit)"
where
  "display h document page_size center show_axes show_grid show_pen_up color_mode unit mode
      fig_size =
    (let mode' = infer_mode h mode
     in if mode' = ''ipython'' then
          (let (evs, r) = display_ipython h document page_size center show_pen_up color_mode
           in (ipython_warnings show_axes show_grid unit fig_size @ evs, r))
        else if mode' = ''matplotlib'' then
          display_matplotlib h document page_size center show_axes show_grid show_pen_up
            (color_mode = ''path'') unit fig_size
        else ([], Inl ValueError))"

text \<open>The defaults of the keyword arguments that the IPython mode cannot honour.\<close>

definition show_axes_default :: bool where
  "show_axes_default = True"

definition show_grid_default :: bool where
  "show_grid_default = False"

definition unit_default :: string where
  "unit_default = ''px''"

definition fig_size_default :: "vec option" where
  "fig_size_default = None"

section \<open>Observers and sample inputs\<close>

text \<open>The collections of the layers themselves (the labelled ones), in drawing order.\<close>

fun layer_collections :: "event list \<Rightarrow> line_collection list" where
  "layer_collections [] = []"
| "layer_collections (AddCollection c # evs) =
     (if label c \<noteq> None then c # layer_collections evs else layer_collections evs)"
| "layer_collections (_ # evs) = layer_collections evs"

text \<open>The pen-up collections (the unlabelled ones), in drawing order.\<close>

fun pen_up_collections :: "event list \<Rightarrow> line_collection list" where
  "pen_up_collections [] = []"
| "pen_up_collections (AddCollection c # evs) =
     (if label c = None then c # pen_up_collections evs else pen_up_collections evs)"
| "pen_up_collections (_ # evs) = pen_up_collections evs"

fun is_warning :: "event \<Rightarrow> bool" where
  "is_warning (Warning _) = True"
| "is_warning _ = False"

fun is_backend_call :: "event \<Rightarrow> bool" where
  "is_backend_call (Warning _) = False"
| "is_backend_call _ = True"

text \<open>
  A host for the examples: a plain script with IPython absent, pixels as the only unit
  (factor 1, as vpype has it), and a serialiser that writes a fixed text.
\<close>

definition script_host :: host where
  "script_host =
    \<lparr>COLAB = False, JUPYTERLAB = False, ipython_loaded = False,
     svg_pan_zoom_url = ''svg-pan-zoom.min.js'',
     convert_length = (\<lambda>u. if u = ''px'' then Inr 1 else Inl ValueError),
     write_svg = (\<lambda>d p c s m. Inr ''<g/>''),
     randint = 42\<rparr>"

text \<open>The same inside a notebook, with IPython loaded.\<close>

definition notebook_host :: host where
  "notebook_host = script_host\<lparr>JUPYTERLAB := True, ipython_loaded := True\<rparr>"

text \<open>The document of the spec's example: one layer with two strokes.\<close>

definition two_strokes :: document where
  "two_strokes =
    \<lparr>layers = [(1, [[Complex 0 0, Complex 1 1], [Complex 2 2, Complex 3 3]])]\<rparr>"

text \<open>Two layers of one stroke each.\<close>

definition two_layers :: document where
  "two_layers =
    \<lparr>layers = [(1, [[Complex 0 0, Complex 1 1]]), (2, [[Complex 2 2, Complex 3 3]])]\<rparr>"


section \<open>Facts about the palette and the pen-up generator\<close>

lemma length_COLORS: "length COLORS = 8"
  by (simp add: COLORS_def)

lemma wrap_idx_mod: "wrap_idx n = n mod 8"
  by (simp add: wrap_idx_def length_COLORS)

lemma collect_map_Inr:
  "(\<And>x. x \<in> set xs \<Longrightarrow> f x = Inr (g x)) \<Longrightarrow> collect (map f xs) = Inr (map g xs)"
  by (induction xs) simp_all

lemma pen_up_segment_ok:
  assumes "lc ! i \<noteq> []" and "lc ! (i + 1) \<noteq> []"
  shows "pen_up_segment offset scale lc i =
           Inr (last (stroke offset scale (lc ! i)), hd (stroke offset scale (lc ! (i + 1))))"
proof -
  obtain z zs where hd_eq: "lc ! (i + 1) = z # zs"
    using assms(2) by (cases "lc ! (i + 1)") auto
  have l: "last_row (as_vector (lc ! i)) = Inr (Re (last (lc ! i)), Im (last (lc ! i)))"
    using assms(1) by (simp add: last_row_def as_vector_def last_map)
  have f: "first_row (as_vector (lc ! (i + 1))) = Inr (Re z, Im z)"
    using hd_eq by (simp add: first_row_def as_vector_def)
  have s1: "last (stroke offset scale (lc ! i)) =
      ((Re (last (lc ! i)) + Re offset) * scale, (Im (last (lc ! i)) + Im offset) * scale)"
    using assms(1) by (simp add: stroke_def as_vector_def last_map)
  have s2: "hd (stroke offset scale (lc ! (i + 1))) =
      ((Re z + Re offset) * scale, (Im z + Im offset) * scale)"
    using hd_eq by (simp add: stroke_def as_vector_def)
  show ?thesis
    unfolding pen_up_segment_def Let_def l f s1 s2 by simp
qed

lemma pen_up_segments_ok:
  assumes "\<forall>line \<in> set lc. line \<noteq> []"
  shows "pen_up_segments offset scale lc =
           Inr (map (\<lambda>i. (last (stroke offset scale (lc ! i)),
                           hd (stroke offset scale (lc ! (i + 1)))))
                  [0..<length lc - 1])"
  unfolding pen_up_segments_def
proof (rule collect_map_Inr)
  fix i assume "i \<in> set [0..<length lc - 1]"
  then have "i < length lc" and "i + 1 < length lc" by auto
  then have "lc ! i \<noteq> []" and "lc ! (i + 1) \<noteq> []"
    using assms by (auto simp del: One_nat_def)
  then show "pen_up_segment offset scale lc i =
      Inr (last (stroke offset scale (lc ! i)), hd (stroke offset scale (lc ! (i + 1))))"
    by (rule pen_up_segment_ok)
qed


section \<open>The loop over the layers\<close>

lemma rotate_COLORS: "c < 8 \<Longrightarrow> drop c COLORS @ take c COLORS = rotate c COLORS"
  by (simp add: rotate_drop_take length_COLORS)

lemma rotate_COLORS_mod: "rotate (n mod 8) COLORS = rotate n COLORS"
  using rotate_conv_mod [of n COLORS] by (simp add: length_COLORS)

lemma plot_layers_Cons_collections:
  assumes "c < 8"
  shows "layer_collections (fst (plot_layers colorful spu off sc c ((lid, lc) # rest))) =
    \<lparr>segments = map (stroke off sc) lc,
     color = (if colorful then ColorList (rotate c COLORS) else OneColor (COLORS ! c)),
     lw = 1, alpha = 0.5, label = Some lid\<rparr>
    # (if spu \<and> isl (pen_up_segments off sc lc) then []
       else layer_collections
              (fst (plot_layers colorful spu off sc
                      ((c + (if colorful then length lc else 1)) mod 8) rest)))"
  using assms
  by (simp add: layer_color_def wrap_idx_mod length_COLORS rotate_COLORS Let_def
           split: sum.splits prod.splits)

declare plot_layers.simps(2) [simp del]

lemma plot_layers_colors:
  assumes "c < 8"
    and "k < length (layer_collections (fst (plot_layers colorful spu off sc c ls)))"
  shows "color (layer_collections (fst (plot_layers colorful spu off sc c ls)) ! k) =
     (if colorful
      then ColorList (rotate (c + sum_list (map (length \<circ> snd) (take k ls))) COLORS)
      else OneColor (COLORS ! ((c + k) mod 8)))"
  using assms
proof (induction ls arbitrary: c k)
  case Nil
  then show ?case by simp
next
  case (Cons a rest)
  obtain lid lc where a: "a = (lid, lc)" by (cases a)
  let ?c' = "(c + (if colorful then length lc else 1)) mod 8"
  have c': "?c' < 8" by simp
  note eq = plot_layers_Cons_collections [OF Cons.prems(1), of colorful spu off sc lid lc rest]
  show ?case
  proof (cases k)
    case 0
    then show ?thesis
      using Cons.prems(1) by (simp add: a eq)
  next
    case (Suc k')
    have ne: "\<not> (spu \<and> isl (pen_up_segments off sc lc))"
      using Cons.prems(2) unfolding a eq Suc by (auto split: if_splits)
    have "\<exists>x. layer_collections (fst (plot_layers colorful spu off sc c (a # rest))) =
        x # layer_collections (fst (plot_layers colorful spu off sc ?c' rest))"
      unfolding a eq by (simp only: ne if_False, blast)
    then obtain x where
      cons: "layer_collections (fst (plot_layers colorful spu off sc c (a # rest))) =
        x # layer_collections (fst (plot_layers colorful spu off sc ?c' rest))" ..
    have k': "k' < length (layer_collections (fst (plot_layers colorful spu off sc ?c' rest)))"
      using Cons.prems(2) unfolding cons Suc by simp
    have nth: "layer_collections (fst (plot_layers colorful spu off sc c (a # rest))) ! k =
        layer_collections (fst (plot_layers colorful spu off sc ?c' rest)) ! k'"
      unfolding cons Suc by simp
    have ih: "color (layer_collections (fst (plot_layers colorful spu off sc ?c' rest)) ! k') =
       (if colorful
        then ColorList (rotate (?c' + sum_list (map (length \<circ> snd) (take k' rest))) COLORS)
        else OneColor (COLORS ! ((?c' + k') mod 8)))"
      by (rule Cons.IH [OF c' k'])
    show ?thesis
    proof (cases colorful)
      case True
      have "rotate ((c + length lc) mod 8 + sum_list (map (length \<circ> snd) (take k' rest))) COLORS
          = rotate (c + length lc + sum_list (map (length \<circ> snd) (take k' rest))) COLORS"
        by (metis rotate_COLORS_mod mod_add_left_eq)
      then show ?thesis
        unfolding nth ih using True by (simp add: a Suc add.assoc)
    next
      case False
      have "((c + 1) mod 8 + k') mod 8 = (c + Suc k') mod 8"
        by (simp add: mod_add_left_eq)
      then show ?thesis
        unfolding nth ih using False by (simp add: Suc)
    qed
  qed
qed

lemma plot_layers_labels:
  assumes "c < 8"
    and "k < length (layer_collections (fst (plot_layers colorful spu off sc c ls)))"
  shows "k < length ls \<and>
         label (layer_collections (fst (plot_layers colorful spu off sc c ls)) ! k) = Some (fst (ls ! k)) \<and>
         segments (layer_collections (fst (plot_layers colorful spu off sc c ls)) ! k) =
           map (stroke off sc) (snd (ls ! k))"
  using assms
proof (induction ls arbitrary: c k)
  case Nil
  then show ?case by simp
next
  case (Cons a rest)
  obtain lid lc where a: "a = (lid, lc)" by (cases a)
  let ?c' = "(c + (if colorful then length lc else 1)) mod 8"
  have c': "?c' < 8" by simp
  note eq = plot_layers_Cons_collections [OF Cons.prems(1), of colorful spu off sc lid lc rest]
  show ?case
  proof (cases k)
    case 0
    then show ?thesis by (simp add: a eq)
  next
    case (Suc k')
    have ne: "\<not> (spu \<and> isl (pen_up_segments off sc lc))"
      using Cons.prems(2) unfolding a eq Suc by (auto split: if_splits)
    have "\<exists>x. layer_collections (fst (plot_layers colorful spu off sc c (a # rest))) =
        x # layer_collections (fst (plot_layers colorful spu off sc ?c' rest))"
      unfolding a eq by (simp only: ne if_False, blast)
    then obtain x where
      cons: "layer_collections (fst (plot_layers colorful spu off sc c (a # rest))) =
        x # layer_collections (fst (plot_layers colorful spu off sc ?c' rest))" ..
    have k': "k' < length (layer_collections (fst (plot_layers colorful spu off sc ?c' rest)))"
      using Cons.prems(2) unfolding cons Suc by simp
    have nth: "layer_collections (fst (plot_layers colorful spu off sc c (a # rest))) ! k =
        layer_collections (fst (plot_layers colorful spu off sc ?c' rest)) ! k'"
      unfolding cons Suc by simp
    show ?thesis
      unfolding nth using Cons.IH [OF c' k'] by (simp add: Suc)
  qed
qed

text \<open>No error: all layers are drawn and the cursor is the total count modulo 8.\<close>

lemma plot_layers_total:
  assumes "c < 8"
    and "spu \<longrightarrow> (\<forall>(lid, lc) \<in> set ls. \<forall>line \<in> set lc. line \<noteq> [])"
  shows "snd (plot_layers colorful spu off sc c ls) =
           Inr ((c + (if colorful then sum_list (map (length \<circ> snd) ls) else length ls)) mod 8)
       \<and> length (layer_collections (fst (plot_layers colorful spu off sc c ls))) = length ls"
  using assms
proof (induction ls arbitrary: c)
  case Nil
  then show ?case by simp
next
  case (Cons a rest)
  obtain lid lc where a: "a = (lid, lc)" by (cases a)
  let ?c' = "(c + (if colorful then length lc else 1)) mod 8"
  have c': "?c' < 8" by simp
  have rest: "spu \<longrightarrow> (\<forall>(lid, lc) \<in> set rest. \<forall>line \<in> set lc. line \<noteq> [])"
    using Cons.prems(2) by simp
  have pu: "spu \<Longrightarrow> \<not> isl (pen_up_segments off sc lc)"
    using Cons.prems(2) by (simp add: a pen_up_segments_ok)
  note ih = Cons.IH [OF c' rest]
  have len: "length (layer_collections (fst (plot_layers colorful spu off sc c (a # rest)))) =
      Suc (length rest)"
    unfolding a plot_layers_Cons_collections [OF Cons.prems(1)] using pu ih by auto
  have "snd (plot_layers colorful spu off sc c (a # rest)) =
      snd (plot_layers colorful spu off sc ?c' rest)"
    using Cons.prems(1) pu
    by (cases "pen_up_segments off sc lc")
      (auto simp: a plot_layers.simps(2) layer_color_def wrap_idx_mod length_COLORS Let_def
            split: prod.splits)
  also have "\<dots> = Inr ((?c' + (if colorful then sum_list (map (length \<circ> snd) rest)
                                  else length rest)) mod 8)"
    using ih by simp
  also have "(?c' + (if colorful then sum_list (map (length \<circ> snd) rest) else length rest)) mod 8
      = (c + (if colorful then sum_list (map (length \<circ> snd) (a # rest))
              else length (a # rest))) mod 8"
    by (simp add: a mod_add_left_eq add.assoc)
  finally show ?case using len by simp
qed

section \<open>From the loop to the renderer and the dispatcher\<close>

lemma layer_collections_append:
  "layer_collections (xs @ ys) = layer_collections xs @ layer_collections ys"
  by (induction xs rule: layer_collections.induct) simp_all

lemma pen_up_collections_append:
  "pen_up_collections (xs @ ys) = pen_up_collections xs @ pen_up_collections ys"
  by (induction xs rule: pen_up_collections.induct) simp_all

lemma layer_collections_draw_page [simp]: "layer_collections (draw_page ps sc) = []"
  by (simp add: draw_page_def Let_def split: option.splits prod.splits)

lemma pen_up_collections_draw_page [simp]: "pen_up_collections (draw_page ps sc) = []"
  by (simp add: draw_page_def Let_def split: option.splits prod.splits)

lemma layer_collections_configure_axes [simp]: "layer_collections (configure_axes sa sg u) = []"
  by (simp add: configure_axes_def)

lemma pen_up_collections_configure_axes [simp]: "pen_up_collections (configure_axes sa sg u) = []"
  by (simp add: configure_axes_def)

lemma display_matplotlib_layer_collections:
  assumes "compute_scale h u = Inr sc"
  shows "layer_collections (fst (display_matplotlib h d ps c sa sg spu colorful u fs)) =
    layer_collections (fst (plot_layers colorful spu (compute_offset ps c (bounds d)) sc 0 (layers d)))"
  using assms
  by (simp add: display_matplotlib_def Let_def layer_collections_append
           split: prod.splits sum.splits option.splits)

lemma display_matplotlib_pen_up_collections:
  assumes "compute_scale h u = Inr sc"
  shows "pen_up_collections (fst (display_matplotlib h d ps c sa sg spu colorful u fs)) =
    pen_up_collections (fst (plot_layers colorful spu (compute_offset ps c (bounds d)) sc 0 (layers d)))"
  using assms
  by (simp add: display_matplotlib_def Let_def pen_up_collections_append
           split: prod.splits sum.splits option.splits)

lemma display_matplotlib_no_scale:
  assumes "compute_scale h u = Inl e"
  shows "display_matplotlib h d ps c sa sg spu colorful u fs = ([], Inl e)"
  using assms by (simp add: display_matplotlib_def)

lemma display_matplotlib_result:
  assumes "compute_scale h u = Inr sc"
  shows "snd (display_matplotlib h d ps c sa sg spu colorful u fs) =
    (case snd (plot_layers colorful spu (compute_offset ps c (bounds d)) sc 0 (layers d)) of
       Inl e \<Rightarrow> Inl e | Inr _ \<Rightarrow> Inr ())"
  using assms
  by (simp add: display_matplotlib_def Let_def split: prod.splits sum.splits)

lemma display_raster:
  assumes "infer_mode h mode = ''matplotlib''"
  shows "display h d ps c sa sg spu cm u mode fs =
           display_matplotlib h d ps c sa sg spu (cm = ''path'') u fs"
  using assms by (simp add: display_def)

lemma display_vector:
  assumes "infer_mode h mode = ''ipython''"
  shows "display h d ps c sa sg spu cm u mode fs =
           (ipython_warnings sa sg u fs @ fst (display_ipython h d ps c spu cm),
            snd (display_ipython h d ps c spu cm))"
  using assms by (simp add: display_def split: prod.splits)

text \<open>The pen-up collections of the loop, when every line has a point.\<close>

lemma plot_layers_pen_up:
  assumes "c < 8"
    and "\<forall>(lid, lc) \<in> set ls. \<forall>line \<in> set lc. line \<noteq> []"
  shows "map segments (pen_up_collections (fst (plot_layers colorful True off sc c ls))) =
     map (\<lambda>(lid, lc). map (\<lambda>i. [last (stroke off sc (lc ! i)), hd (stroke off sc (lc ! (i + 1)))])
                          [0..<length lc - 1]) ls"
  using assms
proof (induction ls arbitrary: c)
  case Nil
  then show ?case by simp
next
  case (Cons a rest)
  obtain lid lc where a: "a = (lid, lc)" by (cases a)
  let ?c' = "(c + (if colorful then length lc else 1)) mod 8"
  have c': "?c' < 8" by simp
  have rest: "\<forall>(lid, lc) \<in> set rest. \<forall>line \<in> set lc. line \<noteq> []"
    using Cons.prems(2) by simp
  have lc: "\<forall>line \<in> set lc. line \<noteq> []"
    using Cons.prems(2) by (simp add: a)
  note pu = pen_up_segments_ok [OF lc, of off sc]
  have "pen_up_collections (fst (plot_layers colorful True off sc c (a # rest))) =
      \<lparr>segments = map (\<lambda>i. [last (stroke off sc (lc ! i)), hd (stroke off sc (lc ! (i + 1)))])
                     [0..<length lc - 1],
       color = OneColor (0, 0, 0), lw = 0.5, alpha = 0.5, label = None\<rparr>
      # pen_up_collections (fst (plot_layers colorful True off sc ?c' rest))"
    using Cons.prems(1)
    by (simp add: a plot_layers.simps(2) pu layer_color_def wrap_idx_mod length_COLORS Let_def
          o_def split: prod.splits)
  then show ?case
    using Cons.IH [OF c' rest] by (simp add: a)
qed

lemma plot_layers_no_pen_up:
  "pen_up_collections (fst (plot_layers colorful False off sc c ls)) = []"
proof (induction ls arbitrary: c)
  case Nil
  then show ?case by simp
next
  case (Cons a rest)
  obtain lid lc where a: "a = (lid, lc)" by (cases a)
  show ?case
    using Cons.IH
    by (simp add: a plot_layers.simps(2) Let_def case_prod_unfold split: sum.splits)
qed

lemma plot_layers_events:
  "set (fst (plot_layers colorful spu off sc c ls)) \<subseteq> range AddCollection"
proof (induction ls arbitrary: c spu)
  case Nil
  then show ?case by simp
next
  case (Cons a rest)
  obtain lid lc where a: "a = (lid, lc)" by (cases a)
  have ih: "\<And>c spu. set (fst (plot_layers colorful spu off sc c rest)) \<subseteq> range AddCollection"
    by (rule Cons.IH)
  show ?case
    unfolding a plot_layers.simps(2)
    by (auto simp: Let_def case_prod_unfold split: sum.splits dest: subsetD [OF ih])
qed

text \<open>The colour of each layer drawn by the raster backend, in either colour policy.\<close>

lemma display_raster_drawn:
  assumes raster: "infer_mode h mode = ''matplotlib''"
    and drawn: "k < length (layer_collections (fst (display h d ps c sa sg spu cm u mode fs)))"
  obtains sc where "compute_scale h u = Inr sc"
    and "layer_collections (fst (display h d ps c sa sg spu cm u mode fs)) =
         layer_collections (fst (plot_layers (cm = ''path'') spu (compute_offset ps c (bounds d)) sc 0
                                   (layers d)))"
proof (cases "compute_scale h u")
  case (Inl e)
  then show ?thesis
    using drawn by (simp add: display_raster [OF raster] display_matplotlib_no_scale)
next
  case (Inr sc)
  then show ?thesis
    using that by (simp add: display_raster [OF raster] display_matplotlib_layer_collections)
qed

lemma display_raster_colors:
  assumes raster: "infer_mode h mode = ''matplotlib''"
    and drawn: "k < length (layer_collections (fst (display h d ps c sa sg spu cm u mode fs)))"
  shows "color (layer_collections (fst (display h d ps c sa sg spu cm u mode fs)) ! k) =
     (if cm = ''path''
      then ColorList (rotate (sum_list (map (length \<circ> snd) (take k (layers d)))) COLORS)
      else OneColor (COLORS ! (k mod 8)))"
proof -
  obtain sc where
    eq: "layer_collections (fst (display h d ps c sa sg spu cm u mode fs)) =
         layer_collections (fst (plot_layers (cm = ''path'') spu (compute_offset ps c (bounds d)) sc 0
                                   (layers d)))"
    using display_raster_drawn [OF raster drawn] by blast
  show ?thesis
    using plot_layers_colors [of 0 k "cm = ''path''" spu "compute_offset ps c (bounds d)" sc
        "layers d"] drawn
    unfolding eq by simp
qed

text \<open>Warnings come from the dispatcher only, every other call from a renderer.\<close>

lemma ipython_warnings_only [simp]:
  "filter is_backend_call (ipython_warnings sa sg u fs) = []"
  "filter is_warning (ipython_warnings sa sg u fs) = ipython_warnings sa sg u fs"
  by (simp_all add: ipython_warnings_def)

lemma display_ipython_no_warning [simp]:
  "filter is_warning (fst (display_ipython h d ps c spu cm)) = []"
  "filter is_backend_call (fst (display_ipython h d ps c spu cm)) =
     fst (display_ipython h d ps c spu cm)"
  by (simp_all add: display_ipython_def Let_def case_prod_unfold split: sum.splits)

lemma display_matplotlib_success:
  assumes "snd (display_matplotlib h d ps c sa sg spu colorful u fs) = Inr ()"
  obtains sc where "compute_scale h u = Inr sc"
    and "fst (display_matplotlib h d ps c sa sg spu colorful u fs) =
      (case fs of None \<Rightarrow> [] | Some f \<Rightarrow> [Figure f]) @ [Cla] @ draw_page ps sc
      @ fst (plot_layers colorful spu (compute_offset ps c (bounds d)) sc 0 (layers d))
      @ [InvertYAxis, Axis ''equal'', Margins 0 0] @ configure_axes sa sg u @ [Show]"
proof (cases "compute_scale h u")
  case (Inl e)
  then show ?thesis
    using assms by (simp add: display_matplotlib_no_scale)
next
  case (Inr sc)
  then show ?thesis
    using assms that [of sc]
    by (simp add: display_matplotlib_def Let_def case_prod_unfold split: sum.splits)
qed

text \<open>The points of the strokes the raster renderer draws for a layer.\<close>

lemma stroke_points:
  "stroke offset scale line =
     map (\<lambda>z. ((Re z + Re offset) * scale, (Im z + Im offset) * scale)) line"
  by (simp add: stroke_def as_vector_def o_def)

lemma display_matplotlib_strokes:
  assumes scale: "compute_scale h u = Inr sc"
    and wf: "spu \<longrightarrow> (\<forall>(lid, lc) \<in> set (layers d). \<forall>line \<in> set lc. line \<noteq> [])"
    and k: "k < length (layers d)"
  shows "segments (layer_collections (fst (display_matplotlib h d ps c sa sg spu colorful u fs)) ! k)
         = map (stroke (compute_offset ps c (bounds d)) sc) (snd (layers d ! k))"
proof -
  let ?off = "compute_offset ps c (bounds d)"
  have drawn: "length (layer_collections (fst (plot_layers colorful spu ?off sc 0 (layers d)))) =
      length (layers d)"
    using plot_layers_total [of 0 spu "layers d" colorful ?off sc, OF _ wf] by simp
  show ?thesis
    unfolding display_matplotlib_layer_collections [OF scale]
    using plot_layers_labels [of 0 k colorful spu ?off sc "layers d"] k drawn by simp
qed

section \<open>Evaluation\<close>

lemmas host_defs = script_host_def notebook_host_def

lemmas render_defs =
  display_def infer_mode_def ipython_warnings_def display_ipython_def display_matplotlib_def
  compute_scale_def draw_page_def compute_offset_def bounds_def all_points_def
  plot_layers.simps(2) layer_color_def wrap_idx_def COLORS_def pen_up_segments_def
  pen_up_segment_def last_row_def first_row_def stroke_def as_vector_def configure_axes_def
  MARGIN_def Let_def



text \<open>
  The example of the specification: one layer with the strokes (0,0)-(1,1) and (2,2)-(3,3) on
  a 10 by 10 page, centred, in pixels. The bounds are (0, 0, 3, 3), the offset is
  (3.5, 3.5), and the first point of the first stroke is drawn at (3.5, 3.5).
\<close>

lemma end_to_end_example:
  "bounds two_strokes = Some (0, 0, 3, 3)
   \<and> compute_offset (Some (10, 10)) True (bounds two_strokes) = Complex 3.5 3.5
   \<and> map segments (layer_collections (fst (display script_host two_strokes (Some (10, 10)) True
        True False False ''layer'' ''px'' (Some ''matplotlib'') None)))
      = [[[(3.5, 3.5), (4.5, 4.5)], [(5.5, 5.5), (6.5, 6.5)]]]"
  by (simp add: render_defs host_defs two_strokes_def)

section \<open>The claims\<close>

text \<open>
  C1. The strokes the raster renderer draws carry the offset. With \<^verbatim>\<open>center\<close> true, a
  page size given and the bounds of the document defined, every point of every stroke of
  layer k is drawn at (x + ox, y + oy) times the scale, where
  ox = (page width - bounds width) / 2 - bounds min x and
  oy = (page height - bounds height) / 2 - bounds min y. When \<^verbatim>\<open>center\<close> is false, the
  page size is absent or the bounds are undefined, every point is drawn at (x, y) times
  the scale: the offset is (0, 0). The offset itself obeys the same formula for any bounds
  \<^verbatim>\<open>Document.bounds()\<close> may return, and over the reals the centre of the bounds plus
  the offset is the centre of the page. The unit is any unit that converts, and a stroke
  has a point whenever pen-up segments are asked for.
\<close>

theorem offset_centers_bounds:
  assumes scale: "compute_scale h unit = Inr scale"
    and wf: "show_pen_up \<longrightarrow> (\<forall>(lid, lc) \<in> set (layers d). \<forall>line \<in> set lc. line \<noteq> [])"
    and k: "k < length (layers d)"
  shows
   "(center \<and> page_size = Some (pw, ph) \<and> bounds d = Some (b0, b1, b2, b3) \<longrightarrow>
       segments (layer_collections
          (fst (display_matplotlib h d page_size center show_axes show_grid show_pen_up colorful
                  unit fig_size)) ! k)
       = map (map (\<lambda>z. ((Re z + ((pw - (b2 - b0)) / 2 - b0)) * scale,
                         (Im z + ((ph - (b3 - b1)) / 2 - b1)) * scale)))
           (snd (layers d ! k)))
    \<and> (\<not> center \<or> page_size = None \<or> bounds d = None \<longrightarrow>
       segments (layer_collections
          (fst (display_matplotlib h d page_size center show_axes show_grid show_pen_up colorful
                  unit fig_size)) ! k)
       = map (map (\<lambda>z. (Re z * scale, Im z * scale))) (snd (layers d ! k)))
    \<and> compute_offset (Some (pw, ph)) True (Some (b0, b1, b2, b3)) =
        Complex ((pw - (b2 - b0)) / 2 - b0) ((ph - (b3 - b1)) / 2 - b1)
    \<and> Complex ((b0 + b2) / 2) ((b1 + b3) / 2)
        + compute_offset (Some (pw, ph)) True (Some (b0, b1, b2, b3)) = Complex (pw / 2) (ph / 2)
    \<and> compute_offset page_size False bnds = 0
    \<and> compute_offset None center bnds = 0
    \<and> compute_offset page_size center None = 0"
proof -
  let ?drawn = "segments (layer_collections
          (fst (display_matplotlib h d page_size center show_axes show_grid show_pen_up colorful
                  unit fig_size)) ! k)"
  have seg: "?drawn = map (stroke (compute_offset page_size center (bounds d)) scale)
                        (snd (layers d ! k))"
    by (rule display_matplotlib_strokes [OF scale wf k])
  have centred: "center \<and> page_size = Some (pw, ph) \<and> bounds d = Some (b0, b1, b2, b3) \<longrightarrow>
       ?drawn = map (map (\<lambda>z. ((Re z + ((pw - (b2 - b0)) / 2 - b0)) * scale,
                                (Im z + ((ph - (b3 - b1)) / 2 - b1)) * scale)))
                  (snd (layers d ! k))"
    unfolding seg by (simp add: stroke_points compute_offset_def)
  have plain: "\<not> center \<or> page_size = None \<or> bounds d = None \<longrightarrow>
       ?drawn = map (map (\<lambda>z. (Re z * scale, Im z * scale))) (snd (layers d ! k))"
    unfolding seg
    by (auto simp: stroke_points compute_offset_def split: option.splits prod.splits)
  have helper: "compute_offset (Some (pw, ph)) True (Some (b0, b1, b2, b3)) =
        Complex ((pw - (b2 - b0)) / 2 - b0) ((ph - (b3 - b1)) / 2 - b1)
    \<and> Complex ((b0 + b2) / 2) ((b1 + b3) / 2)
        + compute_offset (Some (pw, ph)) True (Some (b0, b1, b2, b3)) = Complex (pw / 2) (ph / 2)
    \<and> compute_offset page_size False bnds = 0
    \<and> compute_offset None center bnds = 0
    \<and> compute_offset page_size center None = 0"
    by (auto simp: compute_offset_def complex_eq_iff field_simps
             split: option.splits prod.splits)
  show ?thesis
    using centred plain helper by blast
qed

text \<open>
  The example document on a 10 by 10 page in pixels: centred, the strokes are moved by
  (3.5, 3.5); not centred, they are drawn where they are.
\<close>

theorem offset_centers_bounds_witness:
  "compute_scale script_host ''px'' = Inr 1
   \<and> (0::nat) < length (layers two_strokes)
   \<and> bounds two_strokes = Some (0, 0, 3, 3)
   \<and> segments (layer_collections
        (fst (display_matplotlib script_host two_strokes (Some (10, 10)) True True False True
                False ''px'' None)) ! 0)
      = [[(3.5, 3.5), (4.5, 4.5)], [(5.5, 5.5), (6.5, 6.5)]]
   \<and> segments (layer_collections
        (fst (display_matplotlib script_host two_strokes (Some (10, 10)) False True False True
                False ''px'' None)) ! 0)
      = [[(0, 0), (1, 1)], [(2, 2), (3, 3)]]"
proof -
  have h1: "compute_scale script_host ''px'' = Inr 1"
    by (simp add: compute_scale_def script_host_def)
  have h2: "True \<longrightarrow> (\<forall>(lid, lc) \<in> set (layers two_strokes). \<forall>line \<in> set lc. line \<noteq> [])"
    by (simp add: two_strokes_def)
  have h3: "(0::nat) < length (layers two_strokes)"
    by (simp add: two_strokes_def)
  have b: "bounds two_strokes = Some (0, 0, 3, 3)"
    by (simp add: bounds_def all_points_def two_strokes_def)
  have lc: "snd (layers two_strokes ! 0) = [[Complex 0 0, Complex 1 1], [Complex 2 2, Complex 3 3]]"
    by (simp add: two_strokes_def)
  have on: "segments (layer_collections
        (fst (display_matplotlib script_host two_strokes (Some (10, 10)) True True False True
                False ''px'' None)) ! 0)
      = [[(3.5, 3.5), (4.5, 4.5)], [(5.5, 5.5), (6.5, 6.5)]]"
    using offset_centers_bounds [OF h1 h2 h3, THEN conjunct1, rule_format,
        of True "Some (10, 10)" 10 10 0 0 3 3 True False False None] b
    by (simp add: lc)
  have off: "segments (layer_collections
        (fst (display_matplotlib script_host two_strokes (Some (10, 10)) False True False True
                False ''px'' None)) ! 0)
      = [[(0, 0), (1, 1)], [(2, 2), (3, 3)]]"
    using offset_centers_bounds [OF h1 h2 h3, THEN conjunct2, THEN conjunct1, rule_format,
        of False "Some (10, 10)" True False False None]
    by (simp add: lc)
  show ?thesis using h1 h3 b on off by blast
qed

text \<open>
  C2. Colour mode \<^verbatim>\<open>none\<close> on the matplotlib backend, evaluated on a document of two
  layers: the dispatcher passes \<^verbatim>\<open>colorful = (color_mode == "path")\<close>, so the two
  layers are drawn in the first two palette colours (blue, then green), exactly as in mode
  \<^verbatim>\<open>layer\<close>, and not in one neutral colour.
\<close>

theorem none_mode_draws_layer_palette:
  "map color (layer_collections (fst (display script_host two_layers None False True False False
       ''none'' ''px'' (Some ''matplotlib'') None)))
     = [OneColor (0, 0, 1), OneColor (0, 0.5, 0)]
   \<and> display script_host two_layers None False True False False ''none'' ''px''
         (Some ''matplotlib'') None
     = display script_host two_layers None False True False False ''layer'' ''px''
         (Some ''matplotlib'') None"
  by (simp add: render_defs host_defs two_layers_def)

text \<open>
  C3. With \<^verbatim>\<open>show_pen_up\<close> on, a layer of K strokes gets max(0, K - 1) pen-up segments.
  Segment i joins the last point of stroke i to the first point of stroke i + 1, and both
  ends are the points of the drawn strokes: offset added, then scaled. The render succeeds
  and draws one pen-up collection per layer. Every stroke has at least one point, as the
  data model requires.
\<close>

theorem pen_up_between_consecutive_strokes:
  assumes scale: "compute_scale h unit = Inr scale"
    and wf: "\<forall>(lid, lc) \<in> set (layers d). \<forall>line \<in> set lc. line \<noteq> []"
    and k: "k < length (layers d)"
  shows "snd (display_matplotlib h d page_size center show_axes show_grid True colorful unit fig_size)
           = Inr ()
    \<and> length (pen_up_collections
          (fst (display_matplotlib h d page_size center show_axes show_grid True colorful unit
                  fig_size))) = length (layers d)
    \<and> (let lc = snd (layers d ! k);
            offset = compute_offset page_size center (bounds d);
            evs = fst (display_matplotlib h d page_size center show_axes show_grid True colorful
                         unit fig_size);
            pu = segments (pen_up_collections evs ! k)
        in int (length pu) = max 0 (int (length lc) - 1)
           \<and> (\<forall>i < length pu.
                 pu ! i = [last (stroke offset scale (lc ! i)),
                           hd (stroke offset scale (lc ! (i + 1)))]
                 \<and> last (stroke offset scale (lc ! i)) =
                     ((Re (last (lc ! i)) + Re offset) * scale,
                      (Im (last (lc ! i)) + Im offset) * scale)
                 \<and> hd (stroke offset scale (lc ! (i + 1))) =
                     ((Re (hd (lc ! (i + 1))) + Re offset) * scale,
                      (Im (hd (lc ! (i + 1))) + Im offset) * scale))
           \<and> segments (layer_collections evs ! k) = map (stroke offset scale) lc)"
proof -
  let ?off = "compute_offset page_size center (bounds d)"
  let ?run = "plot_layers colorful True ?off scale 0 (layers d)"
  let ?evs = "fst (display_matplotlib h d page_size center show_axes show_grid True colorful
                     unit fig_size)"
  let ?lc = "snd (layers d ! k)"
  let ?segs = "\<lambda>lc. map (\<lambda>i. [last (stroke ?off scale (lc ! i)),
                               hd (stroke ?off scale (lc ! (i + 1)))]) [0..<length lc - 1]"
  have wf': "True \<longrightarrow> (\<forall>(lid, lc) \<in> set (layers d). \<forall>line \<in> set lc. line \<noteq> [])"
    using wf by simp
  have total: "snd ?run = Inr ((0 + (if colorful then sum_list (map (length \<circ> snd) (layers d))
                                      else length (layers d))) mod 8)"
    and drawn: "length (layer_collections (fst ?run)) = length (layers d)"
    using plot_layers_total [of 0 True "layers d" colorful ?off scale, OF _ wf'] by simp_all
  have res: "snd (display_matplotlib h d page_size center show_axes show_grid True colorful unit
                    fig_size) = Inr ()"
    by (simp add: display_matplotlib_result [OF scale] total)
  have pus: "map segments (pen_up_collections ?evs) = map (\<lambda>(lid, lc). ?segs lc) (layers d)"
    unfolding display_matplotlib_pen_up_collections [OF scale]
    by (rule plot_layers_pen_up [OF _ wf]) simp
  have len: "length (pen_up_collections ?evs) = length (layers d)"
    using arg_cong [OF pus, of length] by simp
  have pu_k: "segments (pen_up_collections ?evs ! k) = ?segs ?lc"
  proof -
    have "segments (pen_up_collections ?evs ! k) = map segments (pen_up_collections ?evs) ! k"
      using k len by simp
    also have "\<dots> = (\<lambda>(lid, lc). ?segs lc) (layers d ! k)"
      unfolding pus using k by simp
    finally show ?thesis by (simp add: case_prod_unfold)
  qed
  have lcs: "layer_collections ?evs = layer_collections (fst ?run)"
    by (rule display_matplotlib_layer_collections [OF scale])
  have strokes: "segments (layer_collections ?evs ! k) = map (stroke ?off scale) ?lc"
    unfolding lcs using plot_layers_labels [of 0 k colorful True ?off scale "layers d"] k drawn
    by simp
  have nonempty: "\<And>j. j < length ?lc \<Longrightarrow> ?lc ! j \<noteq> []"
  proof -
    fix j assume j: "j < length ?lc"
    have "layers d ! k \<in> set (layers d)" using k by simp
    then have "\<forall>line \<in> set ?lc. line \<noteq> []"
      using wf by (auto simp: case_prod_unfold)
    then show "?lc ! j \<noteq> []" using j by simp
  qed
  have pts: "\<forall>i < length (?segs ?lc).
       ?segs ?lc ! i = [last (stroke ?off scale (?lc ! i)), hd (stroke ?off scale (?lc ! (i + 1)))]
       \<and> last (stroke ?off scale (?lc ! i)) =
            ((Re (last (?lc ! i)) + Re ?off) * scale, (Im (last (?lc ! i)) + Im ?off) * scale)
       \<and> hd (stroke ?off scale (?lc ! (i + 1))) =
            ((Re (hd (?lc ! (i + 1))) + Re ?off) * scale,
             (Im (hd (?lc ! (i + 1))) + Im ?off) * scale)"
  proof (intro allI impI)
    fix i assume "i < length (?segs ?lc)"
    then have i: "i < length ?lc - 1" by simp
    then have ne: "?lc ! i \<noteq> []" "?lc ! (i + 1) \<noteq> []"
      using nonempty [of i] nonempty [of "i + 1"] by simp_all
    have a: "?segs ?lc ! i =
        [last (stroke ?off scale (?lc ! i)), hd (stroke ?off scale (?lc ! (i + 1)))]"
      using i by simp
    have b: "last (stroke ?off scale (?lc ! i)) =
        ((Re (last (?lc ! i)) + Re ?off) * scale, (Im (last (?lc ! i)) + Im ?off) * scale)"
      using ne(1) by (simp add: stroke_def as_vector_def last_map)
    have c: "hd (stroke ?off scale (?lc ! (i + 1))) =
        ((Re (hd (?lc ! (i + 1))) + Re ?off) * scale,
         (Im (hd (?lc ! (i + 1))) + Im ?off) * scale)"
      using ne(2) by (simp add: stroke_def as_vector_def hd_map)
    show "?segs ?lc ! i =
        [last (stroke ?off scale (?lc ! i)), hd (stroke ?off scale (?lc ! (i + 1)))]
       \<and> last (stroke ?off scale (?lc ! i)) =
            ((Re (last (?lc ! i)) + Re ?off) * scale, (Im (last (?lc ! i)) + Im ?off) * scale)
       \<and> hd (stroke ?off scale (?lc ! (i + 1))) =
            ((Re (hd (?lc ! (i + 1))) + Re ?off) * scale,
             (Im (hd (?lc ! (i + 1))) + Im ?off) * scale)"
      using a b c by blast
  qed
  have cnt: "int (length (?segs ?lc)) = max 0 (int (length ?lc) - 1)"
    by (cases ?lc) simp_all
  show ?thesis
    unfolding Let_def pu_k using res len cnt pts strokes by blast
qed

text \<open>
  The same on the example document: one segment, from (1,1) to (2,2) moved by the offset
  (3.5, 3.5).
\<close>

theorem pen_up_between_consecutive_strokes_witness:
  "compute_scale script_host ''px'' = Inr 1
   \<and> (0::nat) < length (layers two_strokes)
   \<and> segments (pen_up_collections
        (fst (display_matplotlib script_host two_strokes (Some (10, 10)) True True False True
                False ''px'' None)) ! 0)
      = [[(4.5, 4.5), (5.5, 5.5)]]"
proof -
  let ?pu = "segments (pen_up_collections
        (fst (display_matplotlib script_host two_strokes (Some (10, 10)) True True False True
                False ''px'' None)) ! 0)"
  have h1: "compute_scale script_host ''px'' = Inr 1"
    by (simp add: compute_scale_def script_host_def)
  have h2: "\<forall>(lid, lc) \<in> set (layers two_strokes). \<forall>line \<in> set lc. line \<noteq> []"
    by (simp add: two_strokes_def)
  have h3: "(0::nat) < length (layers two_strokes)"
    by (simp add: two_strokes_def)
  have off: "compute_offset (Some (10, 10)) True (bounds two_strokes) = Complex 3.5 3.5"
    by (simp add: render_defs two_strokes_def)
  have lc: "snd (layers two_strokes ! 0) = [[Complex 0 0, Complex 1 1], [Complex 2 2, Complex 3 3]]"
    by (simp add: two_strokes_def)
  note inst = pen_up_between_consecutive_strokes [OF h1 h2 h3, of "Some (10, 10)" True True False
      False None, unfolded Let_def off lc, THEN conjunct2, THEN conjunct2]
  have len: "length ?pu = 1"
    using inst [THEN conjunct1] by simp
  have el: "?pu ! 0 = [(4.5, 4.5), (5.5, 5.5)]"
    using inst [THEN conjunct2, THEN conjunct1, rule_format, of 0] len
    by (simp add: stroke_def as_vector_def)
  have "?pu = [[(4.5, 4.5), (5.5, 5.5)]]"
    using len el by (cases ?pu) auto
  then show ?thesis using h1 h2 h3 by blast
qed

text \<open>
  C4. In colour mode \<^verbatim>\<open>layer\<close> on the raster backend, the k-th layer in document order
  is drawn as one collection holding all its strokes, in palette colour k mod 8. The
  cursor starts at 0 in every call and the result is a function of the arguments alone, so
  two calls on the same document give the same colours.
\<close>

theorem layer_mode_palette_cycle:
  assumes raster: "infer_mode h mode = ''matplotlib''"
    and scale: "compute_scale h unit = Inr scale"
    and wf: "show_pen_up \<longrightarrow> (\<forall>(lid, lc) \<in> set (layers d). \<forall>line \<in> set lc. line \<noteq> [])"
    and k: "k < length (layers d)"
  shows "snd (display h d page_size center show_axes show_grid show_pen_up ''layer'' unit mode
                fig_size) = Inr ()
    \<and> length (layer_collections
          (fst (display h d page_size center show_axes show_grid show_pen_up ''layer'' unit mode
                  fig_size))) = length (layers d)
    \<and> (let c = layer_collections
                 (fst (display h d page_size center show_axes show_grid show_pen_up ''layer'' unit
                         mode fig_size)) ! k
        in label c = Some (fst (layers d ! k))
           \<and> segments c =
               map (stroke (compute_offset page_size center (bounds d)) scale) (snd (layers d ! k))
           \<and> color c = OneColor (COLORS ! (k mod 8)))"
proof -
  let ?off = "compute_offset page_size center (bounds d)"
  let ?run = "plot_layers False show_pen_up ?off scale 0 (layers d)"
  let ?disp = "display h d page_size center show_axes show_grid show_pen_up ''layer'' unit mode
                 fig_size"
  have disp: "?disp = display_matplotlib h d page_size center show_axes show_grid show_pen_up
                        False unit fig_size"
    by (simp add: display_raster [OF raster])
  have total: "snd ?run = Inr ((0 + length (layers d)) mod 8)"
    and drawn: "length (layer_collections (fst ?run)) = length (layers d)"
    using plot_layers_total [of 0 show_pen_up "layers d" False ?off scale, OF _ wf] by simp_all
  have lcs: "layer_collections (fst ?disp) = layer_collections (fst ?run)"
    unfolding disp by (rule display_matplotlib_layer_collections [OF scale])
  have res: "snd ?disp = Inr ()"
    unfolding disp by (simp add: display_matplotlib_result [OF scale] total)
  have len: "length (layer_collections (fst ?disp)) = length (layers d)"
    unfolding lcs by (rule drawn)
  have k': "k < length (layer_collections (fst ?disp))"
    using k len by simp
  have col: "color (layer_collections (fst ?disp) ! k) = OneColor (COLORS ! (k mod 8))"
    using display_raster_colors [OF raster k'] by simp
  have lab: "label (layer_collections (fst ?disp) ! k) = Some (fst (layers d ! k))"
    and seg: "segments (layer_collections (fst ?disp) ! k) =
                map (stroke ?off scale) (snd (layers d ! k))"
    using plot_layers_labels [of 0 k False show_pen_up ?off scale "layers d"] k drawn
    unfolding lcs by simp_all
  show ?thesis
    unfolding Let_def using res len lab seg col by blast
qed

text \<open>
  The second of two layers is drawn in the second palette colour.
\<close>

theorem layer_mode_palette_cycle_witness:
  "infer_mode script_host None = ''matplotlib''
   \<and> compute_scale script_host ''px'' = Inr 1
   \<and> (1::nat) < length (layers two_layers)
   \<and> color (layer_collections
        (fst (display script_host two_layers None False True False True ''layer'' ''px'' None
                None)) ! 1) = OneColor (0, 0.5, 0)"
proof -
  have h1: "infer_mode script_host None = ''matplotlib''"
    by (simp add: infer_mode_def script_host_def)
  have h2: "compute_scale script_host ''px'' = Inr 1"
    by (simp add: compute_scale_def script_host_def)
  have h3: "True \<longrightarrow> (\<forall>(lid, lc) \<in> set (layers two_layers). \<forall>line \<in> set lc. line \<noteq> [])"
    by (simp add: two_layers_def)
  have h4: "(1::nat) < length (layers two_layers)"
    by (simp add: two_layers_def)
  note inst = layer_mode_palette_cycle [OF h1 h2 h3 h4, of None False True False None,
      unfolded Let_def, THEN conjunct2, THEN conjunct2, THEN conjunct2, THEN conjunct2]
  have "color (layer_collections
        (fst (display script_host two_layers None False True False True ''layer'' ''px'' None
                None)) ! 1) = OneColor (0, 0.5, 0)"
    using inst by (simp add: COLORS_def)
  then show ?thesis using h1 h2 h3 h4 by blast
qed



text \<open>
  C6. With no mode given, the dispatcher behaves as with mode \<^verbatim>\<open>ipython\<close> when
  \<^verbatim>\<open>COLAB\<close> or \<^verbatim>\<open>JUPYTERLAB\<close> holds, and as with mode \<^verbatim>\<open>matplotlib\<close> otherwise. Mode
  \<^verbatim>\<open>ipython\<close> runs the vector renderer after the warnings, mode \<^verbatim>\<open>matplotlib\<close> runs the
  raster renderer.
\<close>

theorem mode_inference:
  "display h d page_size center show_axes show_grid show_pen_up color_mode unit None fig_size =
     (if COLAB h \<or> JUPYTERLAB h
      then display h d page_size center show_axes show_grid show_pen_up color_mode unit
             (Some ''ipython'') fig_size
      else display h d page_size center show_axes show_grid show_pen_up color_mode unit
             (Some ''matplotlib'') fig_size)
   \<and> display h d page_size center show_axes show_grid show_pen_up color_mode unit
        (Some ''ipython'') fig_size =
       (ipython_warnings show_axes show_grid unit fig_size
          @ fst (display_ipython h d page_size center show_pen_up color_mode),
        snd (display_ipython h d page_size center show_pen_up color_mode))
   \<and> display h d page_size center show_axes show_grid show_pen_up color_mode unit
        (Some ''matplotlib'') fig_size =
       display_matplotlib h d page_size center show_axes show_grid show_pen_up
         (color_mode = ''path'') unit fig_size"
  by (simp add: display_def infer_mode_def case_prod_unfold Let_def)

text \<open>
  C7. When IPython is not loaded, the vector renderer raises the runtime error with no
  call made: no SVG is written and nothing is handed to IPython. Through the dispatcher,
  with the vector backend asked for or inferred, the result is that error and the only
  events are the dispatcher's own warnings.
\<close>

theorem vector_backend_needs_ipython:
  assumes absent: "\<not> ipython_loaded h"
    and vector: "infer_mode h mode = ''ipython''"
  shows "display_ipython h d page_size center show_pen_up color_mode = ([], Inl RuntimeError)
    \<and> snd (display h d page_size center show_axes show_grid show_pen_up color_mode unit mode
              fig_size) = Inl RuntimeError
    \<and> filter is_backend_call
        (fst (display h d page_size center show_axes show_grid show_pen_up color_mode unit mode
                fig_size)) = []"
  using absent by (simp add: display_vector [OF vector] display_ipython_def)

text \<open>
  A notebook flag set while IPython is absent: the vector backend is inferred and fails.
\<close>

theorem vector_backend_needs_ipython_witness:
  "\<not> ipython_loaded (script_host\<lparr>JUPYTERLAB := True\<rparr>)
   \<and> infer_mode (script_host\<lparr>JUPYTERLAB := True\<rparr>) None = ''ipython''
   \<and> display (script_host\<lparr>JUPYTERLAB := True\<rparr>) two_strokes (Some (10, 10)) True True False
        False ''layer'' ''px'' None None
      = ([Warning ''show_axis is not supported by the IPython display mode''], Inl RuntimeError)"
proof -
  let ?h = "script_host\<lparr>JUPYTERLAB := True\<rparr>"
  have h1: "\<not> ipython_loaded ?h"
    by (simp add: script_host_def)
  have h2: "infer_mode ?h None = ''ipython''"
    by (simp add: infer_mode_def)
  note inst = vector_backend_needs_ipython [OF h1 h2, of two_strokes "Some (10, 10)" True False
      "''layer''" True False "''px''" None]
  have "display ?h two_strokes (Some (10, 10)) True True False False ''layer'' ''px'' None None
      = ([Warning ''show_axis is not supported by the IPython display mode''], Inl RuntimeError)"
    using inst by (simp add: display_vector [OF h2] ipython_warnings_def)
  then show ?thesis using h1 h2 by blast
qed

text \<open>
  C8. Any mode other than the two backend names (and other than none given) makes the
  dispatcher raise the value error at once: no warning, no call of either backend.
\<close>

theorem unsupported_mode_rejected:
  assumes "m \<noteq> ''ipython''" and "m \<noteq> ''matplotlib''"
  shows "display h d page_size center show_axes show_grid show_pen_up color_mode unit (Some m)
           fig_size = ([], Inl ValueError)"
  using assms by (simp add: display_def infer_mode_def)

text \<open>
  The mode \<^verbatim>\<open>svg\<close> is refused.
\<close>

theorem unsupported_mode_rejected_witness:
  "''svg'' \<noteq> ''ipython'' \<and> ''svg'' \<noteq> ''matplotlib''
   \<and> display notebook_host two_strokes None False True False False ''layer'' ''px'' (Some ''svg'')
        None = ([], Inl ValueError)"
proof -
  have h1: "''svg'' \<noteq> ''ipython''" by simp
  have h2: "''svg'' \<noteq> ''matplotlib''" by simp
  show ?thesis
    using h1 h2 unsupported_mode_rejected [OF h1 h2] by blast
qed

text \<open>
  C9, as the code has it. With the vector backend chosen, the warnings are exactly: one
  for \<^verbatim>\<open>show_axes\<close> when it is true, one for \<^verbatim>\<open>show_grid\<close> when it is true, one for the
  unit when it is not \<^verbatim>\<open>px\<close>, one for \<^verbatim>\<open>fig_size\<close> when it is given, in this order. Every
  other event and the result are those of the vector renderer, which does not take these
  four options; with IPython loaded and the SVG written, it hands over one HTML fragment
  holding that SVG and returns normally.
\<close>

theorem vector_mode_warns_on_requested_options:
  assumes vector: "infer_mode h mode = ''ipython''"
  shows "filter is_warning
           (fst (display h d page_size center show_axes show_grid show_pen_up color_mode unit mode
                   fig_size)) =
         (if show_axes then [Warning ''show_axis is not supported by the IPython display mode'']
          else [])
         @ (if show_grid then [Warning ''show_grid is not supported by the IPython display mode'']
            else [])
         @ (if unit \<noteq> ''px''
            then [Warning ''custom units are not supported by the IPython display mode'']
            else [])
         @ (if fig_size \<noteq> None
            then [Warning ''setting fig_size is not supported by the IPython display mode'']
            else [])
    \<and> filter is_backend_call
        (fst (display h d page_size center show_axes show_grid show_pen_up color_mode unit mode
                fig_size)) = fst (display_ipython h d page_size center show_pen_up color_mode)
    \<and> snd (display h d page_size center show_axes show_grid show_pen_up color_mode unit mode
              fig_size) = snd (display_ipython h d page_size center show_pen_up color_mode)
    \<and> (\<forall>body. ipython_loaded h
          \<and> write_svg h d (case page_size of None \<Rightarrow> (0, 0) | Some p \<Rightarrow> p) center show_pen_up
               color_mode = Inr body
        \<longrightarrow> snd (display_ipython h d page_size center show_pen_up color_mode) = Inr ()
            \<and> (\<exists>m. fst (display_ipython h d page_size center show_pen_up color_mode)
                       = [DisplayHtml m]
                     \<and> svg_body m = body))"
proof -
  have w: "filter is_warning
           (fst (display h d page_size center show_axes show_grid show_pen_up color_mode unit mode
                   fig_size)) = ipython_warnings show_axes show_grid unit fig_size"
    by (simp add: display_vector [OF vector])
  have b: "filter is_backend_call
        (fst (display h d page_size center show_axes show_grid show_pen_up color_mode unit mode
                fig_size)) = fst (display_ipython h d page_size center show_pen_up color_mode)"
    by (simp add: display_vector [OF vector])
  have r: "snd (display h d page_size center show_axes show_grid show_pen_up color_mode unit mode
              fig_size) = snd (display_ipython h d page_size center show_pen_up color_mode)"
    by (simp add: display_vector [OF vector])
  have m: "\<forall>body. ipython_loaded h
          \<and> write_svg h d (case page_size of None \<Rightarrow> (0, 0) | Some p \<Rightarrow> p) center show_pen_up
               color_mode = Inr body
        \<longrightarrow> snd (display_ipython h d page_size center show_pen_up color_mode) = Inr ()
            \<and> (\<exists>m. fst (display_ipython h d page_size center show_pen_up color_mode)
                       = [DisplayHtml m]
                     \<and> svg_body m = body)"
    by (simp add: display_ipython_def Let_def case_prod_unfold)
  show ?thesis
    unfolding w b r using m by (simp add: ipython_warnings_def)
qed

text \<open>
  In a notebook with \<^verbatim>\<open>show_axes\<close> true and the other three options at their defaults:
  one warning, one HTML fragment, normal return.
\<close>

theorem vector_mode_warns_on_requested_options_witness:
  "infer_mode notebook_host None = ''ipython''
   \<and> filter is_warning
       (fst (display notebook_host two_strokes (Some (10, 10)) True True False False ''layer''
               ''px'' None None))
      = [Warning ''show_axis is not supported by the IPython display mode'']
   \<and> snd (display notebook_host two_strokes (Some (10, 10)) True True False False ''layer''
             ''px'' None None) = Inr ()
   \<and> (\<exists>m. filter is_backend_call
             (fst (display notebook_host two_strokes (Some (10, 10)) True True False False
                     ''layer'' ''px'' None None)) = [DisplayHtml m]
           \<and> svg_body m = ''<g/>'')"
proof -
  have h1: "infer_mode notebook_host None = ''ipython''"
    by (simp add: infer_mode_def host_defs)
  have h2: "ipython_loaded notebook_host
      \<and> write_svg notebook_host two_strokes
          (case Some (10, 10) of None \<Rightarrow> (0, 0) | Some p \<Rightarrow> p) True False ''layer''
        = Inr ''<g/>''"
    by (simp add: host_defs)
  note inst = vector_mode_warns_on_requested_options [OF h1, of two_strokes "Some (10, 10)" True
      True False False "''layer''" "''px''" None]
  have a: "filter is_warning
       (fst (display notebook_host two_strokes (Some (10, 10)) True True False False ''layer''
               ''px'' None None))
      = [Warning ''show_axis is not supported by the IPython display mode'']"
    using inst [THEN conjunct1] by simp
  have b: "snd (display notebook_host two_strokes (Some (10, 10)) True True False False ''layer''
             ''px'' None None) = Inr ()
   \<and> (\<exists>m. filter is_backend_call
             (fst (display notebook_host two_strokes (Some (10, 10)) True True False False
                     ''layer'' ''px'' None None)) = [DisplayHtml m]
           \<and> svg_body m = ''<g/>'')"
    using inst [THEN conjunct2] h2 by metis
  show ?thesis using h1 a b by blast
qed

text \<open>
  C9 as stated fails for \<^verbatim>\<open>show_axes\<close>: its default is true, and setting it to the
  other value, false, is not reported. With the four options false, false, \<^verbatim>\<open>px\<close> and
  absent, the vector backend logs no warning at all.
\<close>

theorem show_axes_off_is_not_reported:
  "False \<noteq> show_axes_default
   \<and> filter is_warning
       (fst (display notebook_host two_strokes None False False False False ''layer'' ''px''
               (Some ''ipython'') None)) = []
   \<and> snd (display notebook_host two_strokes None False False False False ''layer'' ''px''
             (Some ''ipython'') None) = Inr ()"
  by (simp add: show_axes_default_def render_defs host_defs two_strokes_def)

text \<open>
  C10. In the raster backend, when the render succeeds, the axes are switched on and
  both labels are set to the unit in brackets exactly when \<^verbatim>\<open>show_axes\<close> or
  \<^verbatim>\<open>show_grid\<close> is true; the axes are switched off exactly when both are false; the
  grid is switched on exactly when \<^verbatim>\<open>show_grid\<close> is true.
\<close>

theorem grid_turns_axes_on:
  assumes ok: "snd (display_matplotlib h d page_size center show_axes show_grid show_pen_up
                      colorful unit fig_size) = Inr ()"
  shows "(Axis ''on'' \<in> set (fst (display_matplotlib h d page_size center show_axes show_grid
                                     show_pen_up colorful unit fig_size))
            \<longleftrightarrow> show_axes \<or> show_grid)
    \<and> (Axis ''off'' \<in> set (fst (display_matplotlib h d page_size center show_axes show_grid
                                     show_pen_up colorful unit fig_size))
            \<longleftrightarrow> \<not> show_axes \<and> \<not> show_grid)
    \<and> (XLabel (''['' @ unit @ '']'') \<in> set (fst (display_matplotlib h d page_size center
                                     show_axes show_grid show_pen_up colorful unit fig_size))
            \<longleftrightarrow> show_axes \<or> show_grid)
    \<and> (YLabel (''['' @ unit @ '']'') \<in> set (fst (display_matplotlib h d page_size center
                                     show_axes show_grid show_pen_up colorful unit fig_size))
            \<longleftrightarrow> show_axes \<or> show_grid)
    \<and> (Grid ''on'' \<in> set (fst (display_matplotlib h d page_size center show_axes show_grid
                                     show_pen_up colorful unit fig_size))
            \<longleftrightarrow> show_grid)"
proof -
  obtain sc where
    evs: "fst (display_matplotlib h d page_size center show_axes show_grid show_pen_up colorful
                 unit fig_size) =
      (case fig_size of None \<Rightarrow> [] | Some f \<Rightarrow> [Figure f]) @ [Cla] @ draw_page page_size sc
      @ fst (plot_layers colorful show_pen_up (compute_offset page_size center (bounds d)) sc 0
               (layers d))
      @ [InvertYAxis, Axis ''equal'', Margins 0 0] @ configure_axes show_axes show_grid unit
      @ [Show]"
    using display_matplotlib_success [OF ok] by blast
  have loop: "\<And>e. e \<in> set (fst (plot_layers colorful show_pen_up
                  (compute_offset page_size center (bounds d)) sc 0 (layers d)))
              \<Longrightarrow> e \<in> range AddCollection"
    using plot_layers_events by blast
  show ?thesis
    unfolding evs
    by (auto simp: configure_axes_def draw_page_def Let_def dest: loop
             split: option.splits prod.splits)
qed

text \<open>
  Grid on, axes off: the axes are shown, labelled in pixels.
\<close>

theorem grid_turns_axes_on_witness:
  "snd (display_matplotlib script_host two_layers None False False True False False ''px'' None)
     = Inr ()
   \<and> Axis ''on'' \<in> set (fst (display_matplotlib script_host two_layers None False False True
                                 False False ''px'' None))
   \<and> XLabel ''[px]'' \<in> set (fst (display_matplotlib script_host two_layers None False False
                                     True False False ''px'' None))"
proof -
  have h1: "snd (display_matplotlib script_host two_layers None False False True False False
                   ''px'' None) = Inr ()"
    by (simp add: render_defs host_defs two_layers_def)
  show ?thesis
    using h1 grid_turns_axes_on [OF h1] by simp
qed

end
